theory Spec2Isabelle
  imports Main "HOL-Library.Word" "HOL-Library.Code_Target_Numeral"
begin

section \<open>Signed URLs: the request handler of src/index.ts\<close>

text \<open>
  The Worker exports one function, \<^verbatim>\<open>fetch(request, env)\<close>. It is embedded below as
  the function \<open>fetch\<close>, with its three inline stages under names of their own:
  \<open>serve\<close> (the bucket lookup and its response, lines 35-47 and 116-128),
  \<open>generate\<close> (lines 53-75) and \<open>verify\<close> (lines 79-113).

  Conventions of the embedding.
  \<^item> A JavaScript string is a \<open>string\<close>. \<open>url.pathname\<close> is ASCII (the URL parser
    percent-encodes it); the assignment to \<open>url.pathname\<close> on line 54 is taken to store
    the string it is given.
  \<^item> The request is the parsed URL: its \<open>pathname\<close> and the value of
    \<open>url.searchParams.get("verify")\<close>, \<open>None\<close> when \<open>has("verify")\<close> is false.
  \<^item> \<open>Date.now()\<close> is an integer number of milliseconds, passed in as \<open>now\<close>.
  \<^item> An exception that the handler does not catch is the \<open>Inl\<close> of its result.
  \<^item> Every call of \<open>env.THE_R2BUCKET.get\<close> is recorded: the first component of the
    handler's result is the list of the keys it asked the bucket for.
  \<^item> The primitives of the platform that the source calls but does not contain are the
    fields of the record \<open>platform\<close>; every theorem holds for every platform.
\<close>

subsection \<open>Bytes and base64 (node:buffer)\<close>

type_synonym byte = "8 word"

definition b64_char :: "nat \<Rightarrow> char" where
  "b64_char n =
     (if n < 26 then char_of (65 + n)
      else if n < 52 then char_of (71 + n)
      else if n < 62 then char_of (n - 4)
      else if n = 62 then CHR ''+'' else CHR ''/'')"

text \<open>\<^verbatim>\<open>Buffer.from(mac).toString("base64")\<close>: the standard alphabet, padded with \<open>=\<close>.\<close>

fun toString_base64 :: "byte list \<Rightarrow> string" where
  "toString_base64 [] = []"
| "toString_base64 [a] =
     [b64_char (unat a div 4), b64_char (unat a mod 4 * 16), CHR ''='', CHR ''='']"
| "toString_base64 [a, b] =
     [b64_char (unat a div 4), b64_char (unat a mod 4 * 16 + unat b div 16),
      b64_char (unat b mod 16 * 4), CHR ''='']"
| "toString_base64 (a # b # c # bs) =
     [b64_char (unat a div 4), b64_char (unat a mod 4 * 16 + unat b div 16),
      b64_char (unat b mod 16 * 4 + unat c div 64), b64_char (unat c mod 64)]
     @ toString_base64 bs"

text \<open>
  \<^verbatim>\<open>Buffer.from(s, "base64")\<close> on a string never throws. Node's decoder accepts the
  standard and the URL-safe alphabet, skips every other character, stops at the first
  \<open>=\<close>, and drops the bits of an incomplete last byte.
\<close>

definition b64_value :: "char \<Rightarrow> nat option" where
  "b64_value c =
     (let n = (of_char c :: nat) in
      if 65 \<le> n \<and> n \<le> 90 then Some (n - 65)
      else if 97 \<le> n \<and> n \<le> 122 then Some (n - 71)
      else if 48 \<le> n \<and> n \<le> 57 then Some (n + 4)
      else if c = CHR ''+'' \<or> c = CHR ''-'' then Some 62
      else if c = CHR ''/'' \<or> c = CHR ''_'' then Some 63
      else None)"

definition sextets :: "string \<Rightarrow> nat list" where
  "sextets s = List.map_filter b64_value (takeWhile (\<lambda>c. c \<noteq> CHR ''='') s)"

fun from_sextets :: "nat list \<Rightarrow> byte list" where
  "from_sextets (p # q # r # s # rest) =
     [of_nat (p * 4 + q div 16), of_nat (q mod 16 * 16 + r div 4), of_nat (r mod 4 * 64 + s)]
     @ from_sextets rest"
| "from_sextets [p, q, r] = [of_nat (p * 4 + q div 16), of_nat (q mod 16 * 16 + r div 4)]"
| "from_sextets [p, q] = [of_nat (p * 4 + q div 16)]"
| "from_sextets [p] = []"
| "from_sextets [] = []"

datatype exn = TypeError | DataError

text \<open>
  \<^verbatim>\<open>Buffer.from(hmac, "base64")\<close>, where \<open>hmac\<close> may be \<open>undefined\<close>: then
  \<open>Buffer.from\<close> throws a TypeError.
\<close>

definition Buffer_from_base64 :: "string option \<Rightarrow> exn + byte list" where
  "Buffer_from_base64 v =
     (case v of None \<Rightarrow> Inl TypeError | Some s \<Rightarrow> Inr (from_sextets (sextets s)))"

subsection \<open>Numbers\<close>

text \<open>
  A JavaScript number is a double. The embedding keeps the integers that are exact in a
  double apart (\<open>SafeInt\<close>), and \<open>NaN\<close>; any other double is carried as its 64 bits,
  and what the source does with it is left to the platform.
\<close>

datatype jsnum = SafeInt int | NaN | Double "64 word"

definition MAX_SAFE_INTEGER :: int where
  "MAX_SAFE_INTEGER = 9007199254740991"

definition EXPIRY :: int where
  "EXPIRY = 600"

record platform =
  hmac :: "string \<Rightarrow> string \<Rightarrow> byte list"
    \<comment> \<open>\<open>crypto.subtle.sign("HMAC", key, data)\<close> for a SHA-256 key imported from the
        bytes of the first string, on the bytes of the second\<close>
  StringToNumber :: "string \<Rightarrow> jsnum"
    \<comment> \<open>\<open>Number(s)\<close> on a string that is neither empty nor a plain decimal safe integer\<close>
  NumberToString :: "64 word \<Rightarrow> string"
    \<comment> \<open>the template-literal rendering of such a double\<close>
  later_than :: "int \<Rightarrow> 64 word \<Rightarrow> bool"
    \<comment> \<open>\<open>now / 1000 > x + EXPIRY\<close> for such a double \<open>x\<close>\<close>

definition is_digit :: "char \<Rightarrow> bool" where
  "is_digit c = (48 \<le> (of_char c :: nat) \<and> (of_char c :: nat) \<le> 57)"

definition digit_val :: "char \<Rightarrow> int" where
  "digit_val c = int (of_char c) - 48"

definition dec_value :: "string \<Rightarrow> int" where
  "dec_value s = foldl (\<lambda>a c. 10 * a + digit_val c) 0 s"

text \<open>
  \<^verbatim>\<open>Number(x)\<close>: \<open>undefined\<close> gives NaN, the empty string 0, a string of decimal
  digits its value (exact up to \<open>MAX_SAFE_INTEGER\<close>).
\<close>

definition Number :: "platform \<Rightarrow> string option \<Rightarrow> jsnum" where
  "Number pf v =
     (case v of
        None \<Rightarrow> NaN
      | Some s \<Rightarrow>
          if s = [] then SafeInt 0
          else if list_all is_digit s \<and> dec_value s \<le> MAX_SAFE_INTEGER then SafeInt (dec_value s)
          else StringToNumber pf s)"

function dec :: "nat \<Rightarrow> string" where
  "dec n = (if n < 10 then [char_of (48 + n)] else dec (n div 10) @ [char_of (48 + n mod 10)])"
  by pat_completeness auto
termination
  by (relation "measure (\<lambda>n. n)") auto

declare dec.simps [simp del]

text \<open>The rendering of a number inside a template literal.\<close>

definition toString :: "platform \<Rightarrow> jsnum \<Rightarrow> string" where
  "toString pf x =
     (case x of
        SafeInt n \<Rightarrow> if n < 0 then CHR ''-'' # dec (nat (- n)) else dec (nat n)
      | NaN \<Rightarrow> ''NaN''
      | Double w \<Rightarrow> NumberToString pf w)"

text \<open>
  \<^verbatim>\<open>Date.now() / 1000 > assertedTimestamp + EXPIRY\<close> (line 108). On a safe integer
  the comparison is the exact one (for every time value \<open>Date.now()\<close> can return, at most
  8.64e15 in magnitude, the quotient's rounding error is below a millisecond); a
  comparison with NaN is false.
\<close>

definition expired :: "platform \<Rightarrow> int \<Rightarrow> jsnum \<Rightarrow> bool" where
  "expired pf now x =
     (case x of
        SafeInt n \<Rightarrow> (n + EXPIRY) * 1000 < now
      | NaN \<Rightarrow> False
      | Double w \<Rightarrow> later_than pf now w)"

subsection \<open>Strings\<close>

definition startsWith :: "string \<Rightarrow> string \<Rightarrow> bool" where
  "startsWith s p = (take (length p) s = p)"

text \<open>\<^verbatim>\<open>s.replace(pat, rep)\<close> with a string pattern: the first occurrence only.\<close>

fun replace :: "string \<Rightarrow> string \<Rightarrow> string \<Rightarrow> string" where
  "replace pat rep [] = (if pat = [] then rep else [])"
| "replace pat rep (x # xs) =
     (if startsWith (x # xs) pat then rep @ drop (length pat) (x # xs)
      else x # replace pat rep xs)"

text \<open>\<^verbatim>\<open>s.split(c)\<close> for a one-character separator: every occurrence splits.\<close>

fun split :: "char \<Rightarrow> string \<Rightarrow> string list" where
  "split c [] = [[]]"
| "split c (x # xs) =
     (if x = c then [] # split c xs
      else (case split c xs of [] \<Rightarrow> [[x]] | p # ps \<Rightarrow> (x # p) # ps))"

text \<open>An array element read by destructuring: \<open>undefined\<close> beyond the end.\<close>

definition element :: "'a list \<Rightarrow> nat \<Rightarrow> 'a option" where
  "element xs i = (if i < length xs then Some (xs ! i) else None)"

subsection \<open>Requests, the environment and responses\<close>

record R2Object =
  obody :: string
  contentType :: "string option"

record Env =
  SECRET_DATA :: "string option"
  THE_R2BUCKET :: "string \<Rightarrow> R2Object option"

record request =
  pathname :: string
  verify_param :: "string option"

datatype body =
    Text string
  | ObjectBody string
  | SignedUrl string string
      \<comment> \<open>\<open>url.pathname\<close> followed by \<open>url.search\<close>, whose \<open>verify\<close> parameter is the token\<close>
  | UrlExpiredAt jsnum
      \<comment> \<open>"URL expired at " and the date \<open>(assertedTimestamp + EXPIRY) * 1000\<close>\<close>

record response =
  status :: nat
  body :: body
  headers :: "(string \<times> string) list"

definition text_response :: "nat \<Rightarrow> string \<Rightarrow> response" where
  "text_response st msg = \<lparr>status = st, body = Text msg, headers = []\<rparr>"

subsection \<open>The stages of the handler\<close>

text \<open>Lines 35-47 and 116-128: one bucket lookup, then 404 or the object.\<close>

definition serve :: "Env \<Rightarrow> string \<Rightarrow> string \<Rightarrow> string list \<times> (exn + response)" where
  "serve env path cache_control =
     (let objectKey = drop 1 path in
      ([objectKey],
       Inr (case THE_R2BUCKET env objectKey of
              None \<Rightarrow> text_response 404 ''Object Not Found''
            | Some object \<Rightarrow>
                \<lparr>status = 200, body = ObjectBody (obody object),
                 headers =
                   [(''Content-Type'',
                     (case contentType object of
                        None \<Rightarrow> ''application/octet-stream''
                      | Some ct \<Rightarrow> if ct = [] then ''application/octet-stream'' else ct)),
                    (''Cache-Control'', cache_control)]\<rparr>)))"

text \<open>
  Lines 56-73: the token \<^verbatim>\<open>`${timestamp}-${base64Mac}`\<close> for a path at a clock
  reading. \<^verbatim>\<open>Math.floor(Date.now() / 1000)\<close> is \<open>now div 1000\<close> for every time value.
\<close>

definition dataToAuthenticate :: "platform \<Rightarrow> string \<Rightarrow> jsnum \<Rightarrow> string" where
  "dataToAuthenticate pf path ts = path @ toString pf ts"

definition token :: "platform \<Rightarrow> string \<Rightarrow> string \<Rightarrow> int \<Rightarrow> string" where
  "token pf key path now =
     (let timestamp = SafeInt (now div 1000);
          mac = hmac pf key (dataToAuthenticate pf path timestamp);
          base64Mac = toString_base64 mac
      in toString pf timestamp @ ''-'' @ base64Mac)"

text \<open>Lines 53-75.\<close>

definition generate :: "platform \<Rightarrow> string \<Rightarrow> string \<Rightarrow> int \<Rightarrow> response" where
  "generate pf key path now =
     (let path' = replace ''/generate/'' ''/'' path
      in \<lparr>status = 200, body = SignedUrl path' (token pf key path' now), headers = []\<rparr>)"

datatype verdict = Ok | MissingToken | MacMismatch | Expired jsnum

text \<open>Lines 79-113, up to the response that each outcome is turned into.\<close>

definition verify :: "platform \<Rightarrow> string \<Rightarrow> string \<Rightarrow> string option \<Rightarrow> int \<Rightarrow> exn + verdict" where
  "verify pf key path param now =
     (case param of
        None \<Rightarrow> Inr MissingToken
      | Some v \<Rightarrow>
          (let parts = split CHR ''-'' v;
               timestamp = element parts 0;
               hmac' = element parts 1;
               assertedTimestamp = Number pf timestamp
           in case Buffer_from_base64 hmac' of
                Inl e \<Rightarrow> Inl e
              | Inr receivedMac \<Rightarrow>
                  if receivedMac \<noteq> hmac pf key (dataToAuthenticate pf path assertedTimestamp)
                  then Inr MacMismatch
                  else if expired pf now assertedTimestamp then Inr (Expired assertedTimestamp)
                  else Inr Ok))"

text \<open>Lines 17-19: the secret, or the built-in default when \<open>env.SECRET_DATA\<close> is nullish.\<close>

definition secretKeyData :: "Env \<Rightarrow> string" where
  "secretKeyData env =
     (case SECRET_DATA env of None \<Rightarrow> ''my secret symmetric key'' | Some s \<Rightarrow> s)"

text \<open>
  Lines 22-28: \<^verbatim>\<open>await crypto.subtle.importKey("raw", secretKeyData, ...)\<close> for an HMAC
  key. The import rejects key data of length zero with a DataError, which the handler
  does not catch; otherwise the key is the key data. An empty \<open>SECRET_DATA\<close> is not
  nullish, so line 18 keeps it.
\<close>

definition importKey :: "string \<Rightarrow> exn + string" where
  "importKey keyData = (if keyData = [] then Inl DataError else Inr keyData)"

text \<open>Lines 77-129: the branch of the protected prefixes.\<close>

definition verify_then_fetch ::
  "platform \<Rightarrow> string \<Rightarrow> Env \<Rightarrow> string \<Rightarrow> string option \<Rightarrow> int \<Rightarrow> string list \<times> (exn + response)"
where
  "verify_then_fetch pf key env path param now =
     (case verify pf key path param now of
        Inl e \<Rightarrow> ([], Inl e)
      | Inr MissingToken \<Rightarrow> ([], Inr (text_response 403 ''Authentication required''))
      | Inr MacMismatch \<Rightarrow> ([], Inr (text_response 403 ''Invalid MAC''))
      | Inr (Expired ts) \<Rightarrow> ([], Inr \<lparr>status = 403, body = UrlExpiredAt ts, headers = []\<rparr>)
      | Inr Ok \<Rightarrow> serve env path ''private, no-store'')"

text \<open>The handler.\<close>

definition fetch :: "platform \<Rightarrow> request \<Rightarrow> Env \<Rightarrow> int \<Rightarrow> string list \<times> (exn + response)" where
  "fetch pf request env now =
     (case importKey (secretKeyData env) of
        Inl e \<Rightarrow> ([], Inl e)
      | Inr key \<Rightarrow>
          (let path = pathname request
           in if startsWith path ''/assets/'' then serve env path ''public, max-age=86400''
              else if startsWith path ''/generate/'' then ([], Inr (generate pf key path now))
              else if startsWith path ''/uploads/'' \<or> startsWith path ''/invoices/'' then
                verify_then_fetch pf key env path (verify_param request) now
              else ([], Inr (text_response 403 ''Access denied''))))"

subsection \<open>The specification's vocabulary\<close>

text \<open>
  The specification's PathClassifier, written from its four rules in their order. The
  source has no such function: \<open>fetch\<close> tests the prefixes inline.
\<close>

datatype policy = Public | Generate | Protected | Denied

definition classify :: "string \<Rightarrow> policy" where
  "classify path =
     (if startsWith path ''/assets/'' then Public
      else if startsWith path ''/generate/'' then Generate
      else if startsWith path ''/uploads/'' \<or> startsWith path ''/invoices/'' then Protected
      else Denied)"

text \<open>
  The specification's TokenCodec splits at the first \<open>-\<close>: the timestamp substring is
  what precedes it, the mac substring all that follows it. A mac substring is valid
  standard base64 when it is the encoding of the bytes it decodes to.
\<close>

definition timestamp_substring :: "string \<Rightarrow> string" where
  "timestamp_substring v = takeWhile (\<lambda>c. c \<noteq> CHR ''-'') v"

definition mac_substring :: "string \<Rightarrow> string" where
  "mac_substring v = drop 1 (dropWhile (\<lambda>c. c \<noteq> CHR ''-'') v)"

definition standard_base64 :: "string \<Rightarrow> bool" where
  "standard_base64 s = (toString_base64 (from_sextets (sextets s)) = s)"

subsection \<open>A platform to compute with\<close>

text \<open>
  Concrete inputs need a concrete platform. This one's MAC is a 32-byte checksum of key
  and message, a stand-in with the shape of HMAC-SHA-256 and none of its strength; its
  \<open>Number\<close> answers NaN outside the decimal integers.
\<close>

definition checksum :: "string \<Rightarrow> string \<Rightarrow> byte list" where
  "checksum k m = replicate 32 (of_nat (sum_list (map of_char (k @ m))))"

definition test_platform :: platform where
  "test_platform =
     \<lparr>hmac = checksum, StringToNumber = (\<lambda>s. NaN), NumberToString = (\<lambda>w. ''Infinity''),
      later_than = (\<lambda>now w. False)\<rparr>"

definition test_env :: Env where
  "test_env =
     \<lparr>SECRET_DATA = Some ''test-secret'',
      THE_R2BUCKET =
        (\<lambda>k. if k = ''uploads/file.txt''
             then Some \<lparr>obody = ''hello'', contentType = Some ''text/plain''\<rparr>
             else None)\<rparr>"

section \<open>Properties\<close>

subsection \<open>Base64: decoding inverts encoding\<close>

lemma b64_value_char: "n < 64 \<Longrightarrow> b64_value (b64_char n) = Some n"
  by (auto simp: b64_value_def b64_char_def Let_def)

lemma b64_char_not_pad: "n < 64 \<Longrightarrow> b64_char n \<noteq> CHR ''=''"
proof
  assume "n < 64" and "b64_char n = CHR ''=''"
  then have "b64_value (CHR ''='') = Some n" using b64_value_char by metis
  then show False by (simp add: b64_value_def)
qed

lemma b64_char_not_dash: "n < 64 \<Longrightarrow> b64_char n \<noteq> CHR ''-''"
proof
  assume n: "n < 64" and e: "b64_char n = CHR ''-''"
  then have "b64_value (CHR ''-'') = Some n" using b64_value_char by metis
  then have "n = 62" by (simp add: b64_value_def)
  with e show False by (simp add: b64_char_def)
qed

lemma sextets_Cons:
  "n < 64 \<Longrightarrow> sextets (b64_char n # s) = n # sextets s"
  by (simp add: sextets_def b64_char_not_pad b64_value_char List.map_filter_simps)

lemma sextets_pad: "sextets (CHR ''='' # s) = []"
  by (simp add: sextets_def List.map_filter_simps)

lemma sextets_Nil: "sextets [] = []"
  by (simp add: sextets_def List.map_filter_simps)

lemma byte_lt: fixes a :: byte shows "unat a < 256"
  using unsigned_less [of a, where ?'a = nat] by simp

lemma sextet_bounds:
  fixes x y :: nat
  assumes "y < 256"
  shows "x mod 4 * 16 + y div 16 < 64" "x mod 16 * 4 + y div 64 < 64"
    "y div 4 < 64" "x mod 4 * 16 < 64" "x mod 16 * 4 < 64" "x mod 64 < 64"
  using assms by arith+

lemma regroup:
  fixes x y z :: nat
  assumes "y < 256" "z < 256"
  shows "x div 4 * 4 + x mod 4 * 16 div 16 = x"
    "x div 4 * 4 + (x mod 4 * 16 + y div 16) div 16 = x"
    "(x mod 4 * 16 + y div 16) mod 16 * 16 + y mod 16 * 4 div 4 = y"
    "(x mod 4 * 16 + y div 16) mod 16 * 16 + (y mod 16 * 4 + z div 64) div 4 = y"
    "(y mod 16 * 4 + z div 64) mod 4 * 64 + z mod 64 = z"
  using assms by simp_all

lemma group1: fixes a :: byte
  shows "from_sextets [unat a div 4, unat a mod 4 * 16] = [a]"
proof -
  have e: "unat a div 4 * 4 + unat a mod 4 * 16 div 16 = unat a"
    by (rule regroup(1) [OF byte_lt [of a] byte_lt [of a]])
  have "(of_nat (unat a div 4 * 4 + unat a mod 4 * 16 div 16) :: byte) = a"
    unfolding e by simp
  then show ?thesis by (simp only: from_sextets.simps)
qed

lemma group2: fixes a b :: byte
  shows "from_sextets [unat a div 4, unat a mod 4 * 16 + unat b div 16, unat b mod 16 * 4] = [a, b]"
proof -
  have e: "unat a div 4 * 4 + (unat a mod 4 * 16 + unat b div 16) div 16 = unat a"
    by (rule regroup(2) [OF byte_lt [of b] byte_lt [of b]])
  have f: "(unat a mod 4 * 16 + unat b div 16) mod 16 * 16 + unat b mod 16 * 4 div 4 = unat b"
    by (rule regroup(3) [OF byte_lt [of b] byte_lt [of b]])
  have "(of_nat (unat a div 4 * 4 + (unat a mod 4 * 16 + unat b div 16) div 16) :: byte) = a"
    "(of_nat ((unat a mod 4 * 16 + unat b div 16) mod 16 * 16 + unat b mod 16 * 4 div 4) :: byte) = b"
    unfolding e f by simp_all
  then show ?thesis by (simp only: from_sextets.simps)
qed

lemma group3: fixes a b c :: byte
  shows "from_sextets (unat a div 4 # (unat a mod 4 * 16 + unat b div 16)
           # (unat b mod 16 * 4 + unat c div 64) # unat c mod 64 # rest)
         = a # b # c # from_sextets rest"
proof -
  have e: "unat a div 4 * 4 + (unat a mod 4 * 16 + unat b div 16) div 16 = unat a"
    by (rule regroup(2) [OF byte_lt [of b] byte_lt [of c]])
  have f: "(unat a mod 4 * 16 + unat b div 16) mod 16 * 16 + (unat b mod 16 * 4 + unat c div 64) div 4 = unat b"
    by (rule regroup(4) [OF byte_lt [of b] byte_lt [of c]])
  have g: "(unat b mod 16 * 4 + unat c div 64) mod 4 * 64 + unat c mod 64 = unat c"
    by (rule regroup(5) [OF byte_lt [of b] byte_lt [of c]])
  have "(of_nat (unat a div 4 * 4 + (unat a mod 4 * 16 + unat b div 16) div 16) :: byte) = a"
    "(of_nat ((unat a mod 4 * 16 + unat b div 16) mod 16 * 16 + (unat b mod 16 * 4 + unat c div 64) div 4) :: byte) = b"
    "(of_nat ((unat b mod 16 * 4 + unat c div 64) mod 4 * 64 + unat c mod 64) :: byte) = c"
    unfolding e f g by simp_all
  then show ?thesis by (simp only: from_sextets.simps append.simps)
qed

lemma from_sextets_toString_base64:
  "from_sextets (sextets (toString_base64 bs)) = bs"
proof (induction bs rule: toString_base64.induct)
  case 1
  show ?case by (simp add: sextets_Nil)
next
  case (2 a)
  have "sextets (toString_base64 [a]) = [unat a div 4, unat a mod 4 * 16]"
    by (simp add: sextets_Cons sextets_pad sextet_bounds byte_lt)
  then show ?case by (simp only: group1)
next
  case (3 a b)
  have "sextets (toString_base64 [a, b])
        = [unat a div 4, unat a mod 4 * 16 + unat b div 16, unat b mod 16 * 4]"
    by (simp add: sextets_Cons sextets_pad sextet_bounds byte_lt)
  then show ?case by (simp only: group2)
next
  case (4 a b c bs)
  have "sextets (toString_base64 (a # b # c # bs))
        = unat a div 4 # (unat a mod 4 * 16 + unat b div 16)
           # (unat b mod 16 * 4 + unat c div 64) # unat c mod 64 # sextets (toString_base64 bs)"
    by (simp add: sextets_Cons sextets_pad sextet_bounds byte_lt)
  then show ?case using 4 by (simp only: group3)
qed

subsection \<open>Decimal numerals and splitting\<close>

lemma b64_char_never_dash: "b64_char n \<noteq> CHR ''-''"
proof (cases "n < 64")
  case True
  then show ?thesis by (rule b64_char_not_dash)
next
  case False
  then show ?thesis by (simp add: b64_char_def)
qed

lemma dash_notin_base64: "CHR ''-'' \<notin> set (toString_base64 bs)"
  by (induction bs rule: toString_base64.induct)
     (simp_all add: b64_char_never_dash b64_char_never_dash [THEN not_sym])

lemma dec_digits: "list_all is_digit (dec n)"
proof (induction n rule: dec.induct)
  case (1 n)
  show ?case
  proof (cases "n < 10")
    case True
    then show ?thesis by (subst dec.simps) (simp add: is_digit_def)
  next
    case False
    have "n mod 10 < 10" by simp
    then have "is_digit (char_of (48 + n mod 10))" by (simp add: is_digit_def)
    with False 1 show ?thesis by (subst dec.simps) simp
  qed
qed

lemma dec_nonempty: "dec n \<noteq> []"
  by (subst dec.simps) simp

lemma dec_value_snoc: "dec_value (s @ [c]) = 10 * dec_value s + digit_val c"
  by (simp add: dec_value_def)

lemma dec_value_dec: "dec_value (dec n) = int n"
proof (induction n rule: dec.induct)
  case (1 n)
  show ?case
  proof (cases "n < 10")
    case True
    then show ?thesis by (subst dec.simps) (simp add: dec_value_def digit_val_def)
  next
    case False
    have "digit_val (char_of (48 + n mod 10)) = int (n mod 10)"
      by (simp add: digit_val_def)
    moreover have "10 * int (n div 10) + int (n mod 10) = int n"
      by (simp add: zdiv_int zmod_int)
    ultimately show ?thesis using False 1 by (subst dec.simps) (simp add: dec_value_snoc)
  qed
qed

lemma digit_not_dash: "is_digit c \<Longrightarrow> c \<noteq> CHR ''-''"
  by (auto simp: is_digit_def)

lemma dash_notin_dec: "CHR ''-'' \<notin> set (dec n)"
  using dec_digits [of n] digit_not_dash by (auto simp: list_all_iff)

lemma split_nonempty: "split c s \<noteq> []"
  by (induction s) (auto split: list.splits)

subsection \<open>What the verifier computes\<close>

lemma toString_nonneg: "0 \<le> n \<Longrightarrow> toString pf (SafeInt n) = dec (nat n)"
  by (simp add: toString_def)

lemma Number_toString:
  assumes "0 \<le> n" "n \<le> MAX_SAFE_INTEGER"
  shows "Number pf (Some (toString pf (SafeInt n))) = SafeInt n"
  using assms by (simp add: Number_def toString_def dec_nonempty dec_digits dec_value_dec)

lemma split_pieces:
  "split c v = takeWhile (\<lambda>x. x \<noteq> c) v
     # (if c \<in> set v then split c (drop 1 (dropWhile (\<lambda>x. x \<noteq> c) v)) else [])"
  by (induction v) (auto split: list.splits)

lemma takeWhile_sep: "c \<notin> set a \<Longrightarrow> takeWhile (\<lambda>x. x \<noteq> c) (a @ c # r) = a"
  by (induction a) auto

lemma dropWhile_sep: "c \<notin> set a \<Longrightarrow> dropWhile (\<lambda>x. x \<noteq> c) (a @ c # r) = c # r"
  by (induction a) auto

lemma takeWhile_all: "c \<notin> set a \<Longrightarrow> takeWhile (\<lambda>x. x \<noteq> c) a = a"
  by (induction a) auto

lemma element_0: "element (x # xs) 0 = Some x"
  by (simp add: element_def)

lemma element_1: "element (x # y # ys) (Suc 0) = Some y" "element [x] (Suc 0) = None"
  by (simp_all add: element_def)

lemma split_first: "element (split c v) 0 = Some (takeWhile (\<lambda>x. x \<noteq> c) v)"
  by (subst split_pieces) (simp add: element_0)

lemma split_second:
  "element (split c v) (Suc 0) =
     (if c \<in> set v
      then Some (takeWhile (\<lambda>x. x \<noteq> c) (drop 1 (dropWhile (\<lambda>x. x \<noteq> c) v)))
      else None)"
proof (cases "c \<in> set v")
  case True
  have "split c v = takeWhile (\<lambda>x. x \<noteq> c) v # split c (drop 1 (dropWhile (\<lambda>x. x \<noteq> c) v))"
    using True by (subst split_pieces) simp
  moreover have "split c (drop 1 (dropWhile (\<lambda>x. x \<noteq> c) v))
     = takeWhile (\<lambda>x. x \<noteq> c) (drop 1 (dropWhile (\<lambda>x. x \<noteq> c) v))
       # (if c \<in> set (drop 1 (dropWhile (\<lambda>x. x \<noteq> c) v))
          then split c (drop 1 (dropWhile (\<lambda>x. x \<noteq> c) (drop 1 (dropWhile (\<lambda>x. x \<noteq> c) v)))) else [])"
    by (rule split_pieces)
  ultimately show ?thesis using True by (simp add: element_1)
next
  case False
  then show ?thesis by (subst split_pieces) (simp add: element_1)
qed

lemma verify_with_separator:
  assumes "CHR ''-'' \<in> set v"
  shows "verify pf key path (Some v) now =
     Inr (if from_sextets (sextets (takeWhile (\<lambda>c. c \<noteq> CHR ''-'') (mac_substring v)))
             \<noteq> hmac pf key (dataToAuthenticate pf path (Number pf (Some (timestamp_substring v))))
          then MacMismatch
          else if expired pf now (Number pf (Some (timestamp_substring v)))
          then Expired (Number pf (Some (timestamp_substring v)))
          else Ok)"
  using assms
  by (simp add: verify_def Let_def split_first split_second Buffer_from_base64_def
      mac_substring_def timestamp_substring_def)

lemma verify_without_separator:
  assumes "CHR ''-'' \<notin> set v"
  shows "verify pf key path (Some v) now = Inl TypeError"
  using assms
  by (simp add: verify_def Let_def split_first split_second Buffer_from_base64_def)

lemma pieces_of_serialized:
  assumes "CHR ''-'' \<notin> set a" "CHR ''-'' \<notin> set b" "rest = [] \<or> hd rest = CHR ''-''"
  shows "timestamp_substring (a @ ''-'' @ b @ rest) = a"
    and "takeWhile (\<lambda>c. c \<noteq> CHR ''-'') (mac_substring (a @ ''-'' @ b @ rest)) = b"
proof -
  show "timestamp_substring (a @ ''-'' @ b @ rest) = a"
    using assms(1) by (simp add: timestamp_substring_def takeWhile_sep)
  have "mac_substring (a @ ''-'' @ b @ rest) = b @ rest"
    using assms(1) by (simp add: mac_substring_def dropWhile_sep)
  moreover have "takeWhile (\<lambda>c. c \<noteq> CHR ''-'') (b @ rest) = b"
    using assms(2,3) by (cases rest) (simp_all add: takeWhile_sep takeWhile_all)
  ultimately show "takeWhile (\<lambda>c. c \<noteq> CHR ''-'') (mac_substring (a @ ''-'' @ b @ rest)) = b"
    by simp
qed

lemma verify_serialized:
  assumes "0 \<le> n" "n \<le> MAX_SAFE_INTEGER" "rest = [] \<or> hd rest = CHR ''-''"
  shows "verify pf key path (Some (toString pf (SafeInt n) @ ''-'' @ toString_base64 mac @ rest)) now =
     Inr (if mac \<noteq> hmac pf key (dataToAuthenticate pf path (SafeInt n)) then MacMismatch
          else if (n + EXPIRY) * 1000 < now then Expired (SafeInt n)
          else Ok)"
proof -
  let ?a = "toString pf (SafeInt n)" and ?b = "toString_base64 mac"
  have a: "CHR ''-'' \<notin> set ?a"
    using assms(1) by (simp add: toString_nonneg dash_notin_dec)
  have b: "CHR ''-'' \<notin> set ?b" by (rule dash_notin_base64)
  have "CHR ''-'' \<in> set (?a @ ''-'' @ ?b @ rest)" by simp
  then show ?thesis
    by (simp only: verify_with_separator pieces_of_serialized [OF a b assms(3)]
        Number_toString [OF assms(1,2)] from_sextets_toString_base64)
       (simp add: expired_def)
qed

lemma token_serialized:
  "token pf key p now =
     toString pf (SafeInt (now div 1000)) @ ''-''
       @ toString_base64 (hmac pf key (dataToAuthenticate pf p (SafeInt (now div 1000)))) @ []"
  by (simp add: token_def Let_def)

lemma clock_timestamp:
  assumes "0 \<le> now" "now \<le> 8640000000000000"
  shows "0 \<le> now div 1000" "now div 1000 \<le> MAX_SAFE_INTEGER"
  using assms by (simp_all add: MAX_SAFE_INTEGER_def)

subsection \<open>The branches of the handler\<close>

lemma key_data_empty: "secretKeyData env = [] \<longleftrightarrow> SECRET_DATA env = Some []"
  by (simp add: secretKeyData_def split: option.splits)

lemma fetch_empty_secret:
  "SECRET_DATA env = Some [] \<Longrightarrow> fetch pf req env now = ([], Inl DataError)"
  by (simp add: fetch_def importKey_def secretKeyData_def)

lemma fetch_by_policy:
  "SECRET_DATA env \<noteq> Some [] \<Longrightarrow>
   fetch pf req env now =
     (case classify (pathname req) of
        Public \<Rightarrow> serve env (pathname req) ''public, max-age=86400''
      | Generate \<Rightarrow> ([], Inr (generate pf (secretKeyData env) (pathname req) now))
      | Protected \<Rightarrow>
          verify_then_fetch pf (secretKeyData env) env (pathname req) (verify_param req) now
      | Denied \<Rightarrow> ([], Inr (text_response 403 ''Access denied'')))"
  by (simp add: fetch_def importKey_def key_data_empty classify_def Let_def)

lemma fetch_protected:
  "SECRET_DATA env \<noteq> Some [] \<Longrightarrow> classify (pathname req) = Protected \<Longrightarrow>
   fetch pf req env now =
     verify_then_fetch pf (secretKeyData env) env (pathname req) (verify_param req) now"
  by (simp add: fetch_by_policy)

lemma serve_log: "fst (serve env path cc) = [drop 1 path]"
  by (simp add: serve_def Let_def)

lemma leading_slash:
  "startsWith path (CHR ''/'' # p) \<Longrightarrow> path = CHR ''/'' # drop 1 path \<and> startsWith (drop 1 path) p"
  by (cases path) (auto simp: startsWith_def)

text \<open>
  On a protected path the bucket is asked only after the verifier has answered \<open>Ok\<close>:
  a failing verdict is answered with status 403, and an exception of the verifier leaves
  the handler as it is.
\<close>

lemma no_fetch_without_ok:
  assumes "SECRET_DATA env \<noteq> Some []" "classify (pathname req) = Protected"
    and "verify pf (secretKeyData env) (pathname req) (verify_param req) now \<noteq> Inr Ok"
  shows "fst (fetch pf req env now) = []
     \<and> (case verify pf (secretKeyData env) (pathname req) (verify_param req) now of
          Inr v \<Rightarrow> (\<exists>r. snd (fetch pf req env now) = Inr r \<and> status r = 403)
        | Inl e \<Rightarrow> snd (fetch pf req env now) = Inl e)"
proof (cases "verify pf (secretKeyData env) (pathname req) (verify_param req) now")
  case (Inl e)
  then show ?thesis
    by (simp add: fetch_protected [OF assms(1,2)] verify_then_fetch_def)
next
  case (Inr v)
  with assms(3) show ?thesis
    by (cases v)
       (simp_all add: fetch_protected [OF assms(1,2)] verify_then_fetch_def text_response_def)
qed

text \<open>
  The two ways a protected request can lack a usable token. An absent parameter is
  refused with 403 (line 79); a parameter without \<open>-\<close> is not: the exception of line 89
  leaves the handler.
\<close>

lemma missing_parameter_refused:
  assumes "SECRET_DATA env \<noteq> Some []" "classify (pathname req) = Protected"
    and "verify_param req = None"
  shows "fetch pf req env now = ([], Inr (text_response 403 ''Authentication required''))"
  by (simp add: fetch_protected [OF assms(1,2)] verify_then_fetch_def verify_def assms(3))

lemma missing_separator_throws:
  assumes "SECRET_DATA env \<noteq> Some []" "classify (pathname req) = Protected"
    and "verify_param req = Some v" "CHR ''-'' \<notin> set v"
  shows "fetch pf req env now = ([], Inl TypeError)"
  by (simp add: fetch_protected [OF assms(1,2)] verify_then_fetch_def assms(3)
      verify_without_separator [OF assms(4)])

lemma verify_throws_only_TypeError:
  "verify pf key path param now \<noteq> Inl DataError"
  by (simp add: verify_def Let_def Buffer_from_base64_def split: option.splits sum.splits)

section \<open>The claims\<close>

text \<open>
  Times are clock readings in milliseconds. \<open>Date.now()\<close> returns a time value, an
  integer of magnitude at most 8640000000000000; the readings below are at or after the
  epoch, as the specification's seconds since the epoch are.
\<close>



text \<open>
  C2, token validity. For a token with timestamp \<open>ts\<close> and MAC bytes \<open>mac\<close>,
  serialised as the decimal timestamp, \<open>-\<close> and the base64 of the MAC: it is accepted
  at the clock reading \<open>now\<close> exactly when \<open>now / 1000 \<le> ts + EXPIRY\<close> and
  \<open>mac\<close> is the MAC of the requested path followed by the decimal timestamp. No lower
  bound on \<open>now\<close> takes part. One second past the expiry (\<open>ts + EXPIRY + 1\<close>), a
  token with the right MAC is refused as expired.
\<close>

theorem token_validity:
  assumes "0 \<le> ts" "ts \<le> MAX_SAFE_INTEGER"
  shows "(verify pf key p (Some (toString pf (SafeInt ts) @ ''-'' @ toString_base64 mac)) now = Inr Ok
          \<longleftrightarrow> now \<le> (ts + EXPIRY) * 1000
              \<and> mac = hmac pf key (dataToAuthenticate pf p (SafeInt ts)))
       \<and> verify pf key p
           (Some (toString pf (SafeInt ts) @ ''-''
                  @ toString_base64 (hmac pf key (dataToAuthenticate pf p (SafeInt ts)))))
           ((ts + EXPIRY + 1) * 1000) = Inr (Expired (SafeInt ts))"
proof -
  have r: "[] = [] \<or> hd [] = CHR ''-''" by simp
  have "verify pf key p (Some (toString pf (SafeInt ts) @ ''-'' @ toString_base64 m)) t =
     Inr (if m \<noteq> hmac pf key (dataToAuthenticate pf p (SafeInt ts)) then MacMismatch
          else if (ts + EXPIRY) * 1000 < t then Expired (SafeInt ts)
          else Ok)" for m t
    using verify_serialized [OF assms r] by simp
  then show ?thesis by auto
qed

theorem token_validity_witness:
  "(0::int) \<le> 1700000000 \<and> (1700000000::int) \<le> MAX_SAFE_INTEGER
   \<and> (verify test_platform ''test-secret'' ''/uploads/file.txt''
         (Some (toString test_platform (SafeInt 1700000000) @ ''-''
                @ toString_base64 (checksum ''test-secret'' ''/uploads/file.txt1700000000'')))
         1700000500000 = Inr Ok
        \<longleftrightarrow> (1700000500000::int) \<le> (1700000000 + EXPIRY) * 1000
            \<and> checksum ''test-secret'' ''/uploads/file.txt1700000000''
              = hmac test_platform ''test-secret''
                  (dataToAuthenticate test_platform ''/uploads/file.txt'' (SafeInt 1700000000)))
   \<and> verify test_platform ''test-secret'' ''/uploads/file.txt''
        (Some (toString test_platform (SafeInt 1700000000) @ ''-''
               @ toString_base64
                  (hmac test_platform ''test-secret''
                     (dataToAuthenticate test_platform ''/uploads/file.txt'' (SafeInt 1700000000)))))
        ((1700000000 + EXPIRY + 1) * 1000) = Inr (Expired (SafeInt 1700000000))"
proof -
  have h: "(0::int) \<le> 1700000000" "(1700000000::int) \<le> MAX_SAFE_INTEGER"
    by (simp_all add: MAX_SAFE_INTEGER_def)
  show ?thesis
    using h token_validity [OF h, of test_platform "''test-secret''" "''/uploads/file.txt''"
        "checksum ''test-secret'' ''/uploads/file.txt1700000000''" 1700000500000]
    by simp
qed

text \<open>
  C2 as stated asks for \<open>ts \<le> now\<close> as well. The handler has no such test: a token
  stamped 1700000000 is accepted when the clock reads 0.
\<close>

theorem future_token_accepted:
  "verify test_platform ''test-secret'' ''/uploads/file.txt''
     (Some ''1700000000-39/f39/f39/f39/f39/f39/f39/f39/f39/f39/f398='') 0 = Inr Ok
   \<and> timestamp_substring ''1700000000-39/f39/f39/f39/f39/f39/f39/f39/f39/f39/f398='' = ''1700000000''
   \<and> (0::int) < 1700000000 * 1000"
  by code_simp

text \<open>
  C3, faults of the verification path. The claim holds the handler to answering every
  value of the \<open>verify\<close> parameter without an uncaught exception. The handler guards
  the absent parameter (line 79) and answers it with 403, but a present value without
  \<open>-\<close> leaves the second piece of the split undefined, \<open>Buffer.from\<close> throws a
  TypeError on it (line 89), and nothing catches it.
\<close>

theorem malformed_token_throws:
  "fetch test_platform \<lparr>pathname = ''/uploads/file.txt'', verify_param = Some ''abc''\<rparr> test_env 0
     = ([], Inl TypeError)
   \<and> fetch test_platform \<lparr>pathname = ''/uploads/file.txt'', verify_param = None\<rparr> test_env 0
     = ([], Inr \<lparr>status = 403, body = Text ''Authentication required'', headers = []\<rparr>)"
  by code_simp

text \<open>
  C4, token parsing. For a parameter that contains a \<open>-\<close>: the handler's first piece
  is the text before the first \<open>-\<close>, its second piece is the text after the first
  \<open>-\<close> cut at the next \<open>-\<close>, and the outcome is decided by the MAC comparison and
  the expiry test on \<open>Number\<close> of the first piece and the lenient decoding of the
  second. No piece is validated and no outcome is a parse error.
\<close>

theorem token_parsing:
  assumes "CHR ''-'' \<in> set v"
  shows "timestamp_substring v = hd (split CHR ''-'' v)
     \<and> takeWhile (\<lambda>c. c \<noteq> CHR ''-'') (mac_substring v) = split CHR ''-'' v ! 1
     \<and> verify pf key path (Some v) now =
       Inr (if from_sextets (sextets (takeWhile (\<lambda>c. c \<noteq> CHR ''-'') (mac_substring v)))
               \<noteq> hmac pf key (dataToAuthenticate pf path (Number pf (Some (timestamp_substring v))))
            then MacMismatch
            else if expired pf now (Number pf (Some (timestamp_substring v)))
            then Expired (Number pf (Some (timestamp_substring v)))
            else Ok)"
proof -
  have "split CHR ''-'' v = timestamp_substring v # split CHR ''-'' (mac_substring v)"
    using assms by (subst split_pieces) (simp add: timestamp_substring_def mac_substring_def)
  moreover have "hd (split CHR ''-'' (mac_substring v))
      = takeWhile (\<lambda>c. c \<noteq> CHR ''-'') (mac_substring v)"
    by (subst split_pieces) simp
  moreover have "split CHR ''-'' (mac_substring v) \<noteq> []" by (rule split_nonempty)
  ultimately show ?thesis
    using verify_with_separator [OF assms, of pf key path now]
    by (simp add: hd_conv_nth)
qed

theorem token_parsing_witness:
  "CHR ''-'' \<in> set ''12-ab-cd''
   \<and> timestamp_substring ''12-ab-cd'' = hd (split CHR ''-'' ''12-ab-cd'')
   \<and> takeWhile (\<lambda>c. c \<noteq> CHR ''-'') (mac_substring ''12-ab-cd'') = split CHR ''-'' ''12-ab-cd'' ! 1
   \<and> verify test_platform ''test-secret'' ''/uploads/file.txt'' (Some ''12-ab-cd'') 0 =
       Inr (if from_sextets (sextets (takeWhile (\<lambda>c. c \<noteq> CHR ''-'') (mac_substring ''12-ab-cd'')))
               \<noteq> hmac test_platform ''test-secret''
                   (dataToAuthenticate test_platform ''/uploads/file.txt''
                      (Number test_platform (Some (timestamp_substring ''12-ab-cd''))))
            then MacMismatch
            else if expired test_platform 0 (Number test_platform (Some (timestamp_substring ''12-ab-cd'')))
            then Expired (Number test_platform (Some (timestamp_substring ''12-ab-cd'')))
            else Ok)"
proof -
  have h: "CHR ''-'' \<in> set ''12-ab-cd''" by simp
  show ?thesis
    using h token_parsing [OF h, of test_platform "''test-secret''" "''/uploads/file.txt''" 0]
    by simp
qed

text \<open>
  C4 as stated rejects a parameter whose text after the first \<open>-\<close> is not standard
  base64. The handler reads only up to the second \<open>-\<close>: a valid token followed by
  \<open>-junk\<close> is accepted.
\<close>

theorem trailing_segment_accepted:
  "\<not> standard_base64 (mac_substring ''1700000000-39/f39/f39/f39/f39/f39/f39/f39/f39/f39/f398=-junk'')
   \<and> verify test_platform ''test-secret'' ''/uploads/file.txt''
       (Some ''1700000000-39/f39/f39/f39/f39/f39/f39/f39/f39/f39/f398=-junk'') 1700000500000 = Inr Ok"
  by code_simp

text \<open>
  C5, path binding. A token issued for \<open>p1\<close> and presented, unmodified and at the
  same clock reading, for a different path \<open>p2\<close> is refused with a MAC mismatch: the
  verifier signs the requested path, the two messages differ, and so do their MACs
  whenever the MAC does not collide on these two messages.
\<close>

theorem path_binding:
  assumes "p1 \<noteq> p2" "0 \<le> now" "now \<le> 8640000000000000"
    and "inj_on (hmac pf key)
           {dataToAuthenticate pf p1 (SafeInt (now div 1000)),
            dataToAuthenticate pf p2 (SafeInt (now div 1000))}"
  shows "verify pf key p2 (Some (token pf key p1 now)) now = Inr MacMismatch"
proof -
  let ?t = "SafeInt (now div 1000)"
  have "dataToAuthenticate pf p1 ?t \<noteq> dataToAuthenticate pf p2 ?t"
    using assms(1) by (simp add: dataToAuthenticate_def)
  with assms(4) have m: "hmac pf key (dataToAuthenticate pf p1 ?t)
      \<noteq> hmac pf key (dataToAuthenticate pf p2 ?t)"
    by (auto simp: inj_on_def)
  have "[] = [] \<or> hd [] = CHR ''-''" by simp
  from verify_serialized [OF clock_timestamp [OF assms(2,3)] this]
  show ?thesis using m by (simp only: token_serialized) simp
qed

theorem path_binding_witness:
  "''/uploads/file.txt'' \<noteq> ''/uploads/other.txt''
   \<and> (0::int) \<le> 1700000000000 \<and> (1700000000000::int) \<le> 8640000000000000
   \<and> inj_on (hmac test_platform ''test-secret'')
        {dataToAuthenticate test_platform ''/uploads/file.txt'' (SafeInt (1700000000000 div 1000)),
         dataToAuthenticate test_platform ''/uploads/other.txt'' (SafeInt (1700000000000 div 1000))}
   \<and> verify test_platform ''test-secret'' ''/uploads/other.txt''
        (Some (token test_platform ''test-secret'' ''/uploads/file.txt'' 1700000000000))
        1700000000000 = Inr MacMismatch"
proof -
  have h1: "''/uploads/file.txt'' \<noteq> ''/uploads/other.txt''" by simp
  have h2: "(0::int) \<le> 1700000000000" "(1700000000000::int) \<le> 8640000000000000" by simp_all
  have "hmac test_platform ''test-secret''
          (dataToAuthenticate test_platform ''/uploads/file.txt'' (SafeInt (1700000000000 div 1000)))
        \<noteq> hmac test_platform ''test-secret''
          (dataToAuthenticate test_platform ''/uploads/other.txt'' (SafeInt (1700000000000 div 1000)))"
    by code_simp
  then have h3: "inj_on (hmac test_platform ''test-secret'')
        {dataToAuthenticate test_platform ''/uploads/file.txt'' (SafeInt (1700000000000 div 1000)),
         dataToAuthenticate test_platform ''/uploads/other.txt'' (SafeInt (1700000000000 div 1000))}"
    by (simp add: inj_on_def)
  show ?thesis
    using h1 h2 h3 path_binding [OF h1 h2 h3] by simp
qed

text \<open>
  C6, the canonical message is not injective: the path \<open>/a1\<close> with timestamp 23 and
  the path \<open>/a\<close> with timestamp 123 are different pairs with the same message, hence
  the same MAC.
\<close>

theorem canonical_message_not_injective:
  "(''/a1'', SafeInt 23) \<noteq> (''/a'', SafeInt 123)
   \<and> dataToAuthenticate pf ''/a1'' (SafeInt 23) = dataToAuthenticate pf ''/a'' (SafeInt 123)
   \<and> hmac pf key (dataToAuthenticate pf ''/a1'' (SafeInt 23))
     = hmac pf key (dataToAuthenticate pf ''/a'' (SafeInt 123))"
proof -
  have "dec 23 = ''23''" "dec 123 = ''123''" by code_simp+
  then have "dataToAuthenticate pf ''/a1'' (SafeInt 23) = dataToAuthenticate pf ''/a'' (SafeInt 123)"
    by (simp add: dataToAuthenticate_def toString_def)
  then show ?thesis by simp
qed

text \<open>
  C7, verification precedes the fetch. The claim holds the handler to a 403 response,
  and no bucket lookup, for every failed verification, a parse failure among them. The
  handler asks the bucket for nothing, but a timestamp without \<open>-\<close> and MAC is not
  answered with 403: the verifier throws (line 89) and the handler with it.
\<close>

theorem parse_failure_not_refused:
  "classify ''/invoices/2024.pdf'' = Protected
   \<and> verify test_platform ''test-secret'' ''/invoices/2024.pdf'' (Some ''1700000000'') 0
     = Inl TypeError
   \<and> fetch test_platform \<lparr>pathname = ''/invoices/2024.pdf'', verify_param = Some ''1700000000''\<rparr>
       test_env 0 = ([], Inl TypeError)"
  by code_simp



text \<open>
  C9, the default secret. With no \<open>SECRET_DATA\<close> the key data is the built-in string
  and its import succeeds; the handler signs and verifies with that string as its key;
  it does, on every request, what it does with \<open>SECRET_DATA\<close> set to that string; and
  it does not fail for want of a key.
\<close>

theorem default_secret:
  "secretKeyData (env\<lparr>SECRET_DATA := None\<rparr>) = ''my secret symmetric key''
   \<and> importKey (secretKeyData (env\<lparr>SECRET_DATA := None\<rparr>)) = Inr ''my secret symmetric key''
   \<and> fetch pf req (env\<lparr>SECRET_DATA := None\<rparr>) now =
       (case classify (pathname req) of
          Public \<Rightarrow> serve env (pathname req) ''public, max-age=86400''
        | Generate \<Rightarrow> ([], Inr (generate pf ''my secret symmetric key'' (pathname req) now))
        | Protected \<Rightarrow>
            verify_then_fetch pf ''my secret symmetric key'' env (pathname req) (verify_param req) now
        | Denied \<Rightarrow> ([], Inr \<lparr>status = 403, body = Text ''Access denied'', headers = []\<rparr>))
   \<and> fetch pf req (env\<lparr>SECRET_DATA := None\<rparr>) now
     = fetch pf req (env\<lparr>SECRET_DATA := Some ''my secret symmetric key''\<rparr>) now
   \<and> snd (fetch pf req (env\<lparr>SECRET_DATA := None\<rparr>) now) \<noteq> Inl DataError"
proof -
  let ?k = "''my secret symmetric key''"
  have s: "serve (env\<lparr>SECRET_DATA := x\<rparr>) path cc = serve env path cc" for x path cc
    by (simp add: serve_def)
  have v: "verify_then_fetch pf key (env\<lparr>SECRET_DATA := x\<rparr>) path param now
      = verify_then_fetch pf key env path param now" for x key path param
    by (simp add: verify_then_fetch_def s split: sum.splits verdict.splits)
  have k: "secretKeyData (env\<lparr>SECRET_DATA := None\<rparr>) = ?k"
    "secretKeyData (env\<lparr>SECRET_DATA := Some ?k\<rparr>) = ?k"
    by (simp_all add: secretKeyData_def)
  have i: "importKey ?k = Inr ?k"
    by (simp add: importKey_def)
  have f: "fetch pf req (env\<lparr>SECRET_DATA := x\<rparr>) now =
       (case classify (pathname req) of
          Public \<Rightarrow> serve env (pathname req) ''public, max-age=86400''
        | Generate \<Rightarrow> ([], Inr (generate pf ?k (pathname req) now))
        | Protected \<Rightarrow> verify_then_fetch pf ?k env (pathname req) (verify_param req) now
        | Denied \<Rightarrow> ([], Inr \<lparr>status = 403, body = Text ''Access denied'', headers = []\<rparr>))"
    if "secretKeyData (env\<lparr>SECRET_DATA := x\<rparr>) = ?k" for x
    using that by (simp add: fetch_def i classify_def Let_def s v text_response_def)
  have d: "snd (verify_then_fetch pf ?k env (pathname req) (verify_param req) now) \<noteq> Inl DataError"
    using verify_throws_only_TypeError [of pf ?k "pathname req" "verify_param req" now]
    by (auto simp: verify_then_fetch_def serve_def Let_def split: sum.splits verdict.splits)
  have "snd (fetch pf req (env\<lparr>SECRET_DATA := None\<rparr>) now) \<noteq> Inl DataError"
    using d by (simp add: f [OF k(1)] serve_def Let_def split: policy.splits)
  then show ?thesis
    by (simp only: k i f [OF k(1)] f [OF k(2)]) simp
qed

text \<open>
  C10, the object key. Whenever the handler asks the bucket, it asks once, for the
  request path without its leading \<open>/\<close>: the prefix \<open>assets/\<close>, \<open>uploads/\<close> or
  \<open>invoices/\<close> stays part of the key, for public and protected paths alike.
\<close>

theorem object_key:
  assumes "fst (fetch pf req env now) \<noteq> []"
  shows "fst (fetch pf req env now) = [drop 1 (pathname req)]
     \<and> pathname req = CHR ''/'' # drop 1 (pathname req)
     \<and> (startsWith (drop 1 (pathname req)) ''assets/''
        \<or> startsWith (drop 1 (pathname req)) ''uploads/''
        \<or> startsWith (drop 1 (pathname req)) ''invoices/'')"
proof -
  have k: "SECRET_DATA env \<noteq> Some []"
    using assms fetch_empty_secret [of env pf req now] by auto
  note policy = fetch_by_policy [OF k]
  show ?thesis
  proof (cases "classify (pathname req)")
    case Public
    then have "startsWith (pathname req) ''/assets/''"
      by (simp add: classify_def split: if_splits)
    from leading_slash [OF this] Public show ?thesis
      by (simp add: policy serve_log)
  next
    case Generate
    with assms show ?thesis by (simp add: policy)
  next
    case Protected
    then have "startsWith (pathname req) ''/uploads/'' \<or> startsWith (pathname req) ''/invoices/''"
      by (simp add: classify_def split: if_splits)
    then have p: "pathname req = CHR ''/'' # drop 1 (pathname req)
        \<and> (startsWith (drop 1 (pathname req)) ''uploads/''
           \<or> startsWith (drop 1 (pathname req)) ''invoices/'')"
      using leading_slash by blast
    have "fst (verify_then_fetch pf (secretKeyData env) env (pathname req) (verify_param req) now)
        = [drop 1 (pathname req)]"
      using assms unfolding fetch_protected [OF k Protected]
      by (auto simp: verify_then_fetch_def serve_log split: sum.splits verdict.splits)
    with p Protected show ?thesis by (simp add: policy)
  next
    case Denied
    with assms show ?thesis by (simp add: policy)
  qed
qed

theorem object_key_witness:
  "fst (fetch test_platform \<lparr>pathname = ''/assets/logo.png'', verify_param = None\<rparr> test_env 0) \<noteq> []
   \<and> fst (fetch test_platform \<lparr>pathname = ''/assets/logo.png'', verify_param = None\<rparr> test_env 0)
      = [drop 1 (pathname \<lparr>pathname = ''/assets/logo.png'', verify_param = None\<rparr>)]
   \<and> pathname \<lparr>pathname = ''/assets/logo.png'', verify_param = None\<rparr>
      = CHR ''/'' # drop 1 (pathname \<lparr>pathname = ''/assets/logo.png'', verify_param = None\<rparr>)
   \<and> (startsWith (drop 1 (pathname \<lparr>pathname = ''/assets/logo.png'', verify_param = None\<rparr>)) ''assets/''
      \<or> startsWith (drop 1 (pathname \<lparr>pathname = ''/assets/logo.png'', verify_param = None\<rparr>)) ''uploads/''
      \<or> startsWith (drop 1 (pathname \<lparr>pathname = ''/assets/logo.png'', verify_param = None\<rparr>)) ''invoices/'')"
proof -
  let ?req = "\<lparr>pathname = ''/assets/logo.png'', verify_param = None\<rparr>"
  have h: "fst (fetch test_platform ?req test_env 0) \<noteq> []"
    by code_simp
  show ?thesis
    using h object_key [OF h] by blast
qed

end
